theory Spec2Isabelle
  imports Main
begin

section \<open>Strings of the editor\<close>

text \<open>
  A JavaScript string is modelled as a \<^typ>\<open>string\<close>: each \<^typ>\<open>char\<close> stands for the
  code unit of the same value, so the model covers the strings over U+0000 .. U+00FF.
  On these strings \<open>trim\<close>, \<open>toLowerCase\<close> and \<open>startsWith\<close> are as below.
\<close>

definition isWhiteSpace :: "char \<Rightarrow> bool" where
  \<comment> \<open>the WhiteSpace and LineTerminator code points below U+0100:
      TAB, LF, VT, FF, CR, SPACE and NO-BREAK SPACE\<close>
  "isWhiteSpace c =
     (c = CHR 0x09 \<or> c = CHR 0x0A \<or> c = CHR 0x0B \<or> c = CHR 0x0C \<or> c = CHR 0x0D
      \<or> c = CHR 0x20 \<or> c = CHR 0xA0)"

definition trim :: "string \<Rightarrow> string" where
  \<comment> \<open>\<open>String.prototype.trim\<close>: white space removed from both ends\<close>
  "trim s = rev (dropWhile isWhiteSpace (rev (dropWhile isWhiteSpace s)))"

definition toLowerChar :: "char \<Rightarrow> char" where
  \<comment> \<open>A-Z, and the capital letters U+00C0 .. U+00DE except the multiplication sign\<close>
  "toLowerChar c =
     (let n = (of_char c :: nat) in
      if (65 \<le> n \<and> n \<le> 90) \<or> (192 \<le> n \<and> n \<le> 222 \<and> n \<noteq> 215)
      then char_of (n + 32) else c)"

definition toLowerCase :: "string \<Rightarrow> string" where
  "toLowerCase s = map toLowerChar s"

definition startsWith :: "string \<Rightarrow> string \<Rightarrow> bool" where
  "startsWith s p = (take (length p) s = p)"

definition replaceAll :: "char \<Rightarrow> string \<Rightarrow> string \<Rightarrow> string" where
  \<comment> \<open>\<open>s.replace(/c/g, r)\<close> for a one-character pattern and a replacement without \<open>$\<close>\<close>
  "replaceAll c r s = concat (map (\<lambda>x. if x = c then r else [x]) s)"

section \<open>Stateless helpers\<close>

subsection \<open>enforceHttps\<close>

text \<open>
  \<open>enforceHttps(inputUrl, messages)\<close> either returns a URL or shows one of the two
  messages with \<open>alert\<close> and returns \<open>null\<close>. The model returns the list of the
  messages shown together with the returned value (\<open>None\<close> for \<open>null\<close>).
\<close>

record messages =
  httpsRequired :: string
  invalidProtocol :: string

definition isSchemeChar :: "char \<Rightarrow> bool" where
  \<comment> \<open>the character class \<open>[a-zA-Z0-9\-\.]\<close>\<close>
  "isSchemeChar c =
     (let n = (of_char c :: nat) in
      (97 \<le> n \<and> n \<le> 122) \<or> (65 \<le> n \<and> n \<le> 90) \<or> (48 \<le> n \<and> n \<le> 57)
      \<or> c = CHR ''-'' \<or> c = CHR ''.'')"

definition schemePattern :: "string \<Rightarrow> bool" where
  \<comment> \<open>\<open>/^[a-zA-Z0-9\-\.]+:\/\//.test(url)\<close>: some non-empty prefix of \<open>url\<close> lies in the
      character class and is followed by \<open>://\<close>\<close>
  "schemePattern url =
     list_ex (\<lambda>n. list_all isSchemeChar (take n url) \<and> startsWith (drop n url) ''://'')
       [1 ..< Suc (length url)]"

definition enforceHttps :: "string \<Rightarrow> messages \<Rightarrow> string list \<times> string option" where
  "enforceHttps inputUrl msgs =
     (if inputUrl = [] then ([], None)
      else let url = trim inputUrl in
        if startsWith (toLowerCase url) ''https://'' then ([], Some url)
        else if startsWith (toLowerCase url) ''http://'' then ([httpsRequired msgs], None)
        else if schemePattern url then ([invalidProtocol msgs], None)
        else ([], Some (''https://'' @ url)))"

subsection \<open>escapeHtml\<close>

definition escapeHtml :: "string \<Rightarrow> string" where
  "escapeHtml text =
     (if text = [] then []
      else replaceAll (CHR 0x27) ''&#039;''
             (replaceAll (CHR 0x22) ''&quot;''
                (replaceAll CHR ''>'' ''&gt;''
                   (replaceAll CHR ''<'' ''&lt;''
                      (replaceAll CHR ''&'' ''&amp;'' text)))))"

text \<open>
  The rule of the specification, character by character: each of the five characters
  is mapped to its entity, every other character to itself.
\<close>

definition escapeChar :: "char \<Rightarrow> string" where
  "escapeChar c =
     (if c = CHR ''&'' then ''&amp;''
      else if c = CHR ''<'' then ''&lt;''
      else if c = CHR ''>'' then ''&gt;''
      else if c = CHR 0x22 then ''&quot;''
      else if c = CHR 0x27 then ''&#039;''
      else [c])"

definition escaped_chars :: "char set" where
  "escaped_chars = {CHR ''&'', CHR ''<'', CHR ''>'', CHR 0x22, CHR 0x27}"

definition markup_chars :: "char set" where
  "markup_chars = {CHR ''<'', CHR ''>'', CHR 0x22, CHR 0x27}"


section \<open>The recursive parser\<close>

text \<open>
  The DOM subtree handed to \<open>parseToMd\<close>: a text node with its \<open>textContent\<close>, or an
  element with its \<open>tagName\<close>, its attributes and its \<open>childNodes\<close>.
\<close>

datatype node = Text string | Element string "(string \<times> string) list" "node list"

datatype js_error = TypeError

fun isElement :: "node \<Rightarrow> bool" where
  "isElement (Text t) = False"
| "isElement (Element tag attrs kids) = True"

fun isListItem :: "node \<Rightarrow> bool" where
  "isListItem (Text t) = False"
| "isListItem (Element tag attrs kids) = (tag = ''LI'')"

definition getAttribute :: "(string \<times> string) list \<Rightarrow> string \<Rightarrow> string option" where
  \<comment> \<open>\<open>null\<close> (here \<open>None\<close>) when the attribute is absent\<close>
  "getAttribute attrs name = map_of attrs name"

fun toStr :: "string option \<Rightarrow> string" where
  \<comment> \<open>a value interpolated into a template literal: \<open>null\<close> prints as the word null\<close>
  "toStr None = ''null''"
| "toStr (Some v) = v"

fun truthy :: "string option \<Rightarrow> bool" where
  \<comment> \<open>\<open>if (v)\<close>: \<open>null\<close> and the empty string are falsy\<close>
  "truthy None = False"
| "truthy (Some v) = (v \<noteq> [])"

definition digitChar :: "nat \<Rightarrow> char" where
  \<comment> \<open>the decimal digit \<open>d\<close>, for \<open>d\<close> below ten\<close>
  "digitChar d = ''0123456789'' ! d"

fun numToString :: "nat \<Rightarrow> string" where
  \<comment> \<open>the decimal digits of a number, as string concatenation prints it\<close>
  "numToString n =
     (if n < 10 then [digitChar n] else numToString (n div 10) @ [digitChar (n mod 10)])"

definition imgRaw :: "string \<Rightarrow> string \<Rightarrow> string \<Rightarrow> string" where
  "imgRaw src alt width =
     ''\<newline><img src='' @ [CHR 0x22] @ src @ [CHR 0x22] @ '' alt='' @ [CHR 0x22] @ alt @ [CHR 0x22]
       @ '' width='' @ [CHR 0x22] @ width @ [CHR 0x22] @ ''>\<newline>''"

definition imgMarkdown :: "string \<Rightarrow> string \<Rightarrow> string" where
  "imgMarkdown alt src = ''\<newline>!['' @ alt @ '']('' @ src @ '')\<newline>''"

text \<open>
  The \<open>switch (node.tagName)\<close> of \<open>parseToMd\<close>, applied to the concatenated output of
  the children. The argument \<open>parent\<close> is \<open>node.parentElement\<close>: \<open>None\<close> when it is
  \<open>null\<close>, otherwise the parent's \<open>tagName\<close> and
  \<open>Array.from(parent.children).indexOf(node)\<close>, the number of element children
  of the parent that come before the node. Reading \<open>parent.tagName\<close> of \<open>null\<close>
  throws a TypeError.
\<close>

definition render ::
  "(string \<times> nat) option \<Rightarrow> string \<Rightarrow> (string \<times> string) list \<Rightarrow> string \<Rightarrow> js_error + string" where
  "render parent tagName attrs content =
    (if tagName = ''B'' \<or> tagName = ''STRONG'' then Inr (''**'' @ content @ ''**'')
     else if tagName = ''I'' \<or> tagName = ''EM'' then Inr (''*'' @ content @ ''*'')
     else if tagName = ''H1'' then Inr (''# '' @ content @ ''\<newline>\<newline>'')
     else if tagName = ''H2'' then Inr (''## '' @ content @ ''\<newline>\<newline>'')
     else if tagName = ''H3'' then Inr (''### '' @ content @ ''\<newline>\<newline>'')
     else if tagName = ''H4'' then Inr (''#### '' @ content @ ''\<newline>\<newline>'')
     else if tagName = ''H5'' then Inr (''##### '' @ content @ ''\<newline>\<newline>'')
     else if tagName = ''H6'' then Inr (''###### '' @ content @ ''\<newline>\<newline>'')
     else if tagName = ''DIV'' \<or> tagName = ''P'' then
       Inr (if trim content \<noteq> [] then content @ ''\<newline>\<newline>'' else [])
     else if tagName = ''BR'' then Inr ''\<newline>''
     else if tagName = ''UL'' \<or> tagName = ''OL'' then Inr (content @ ''\<newline>'')
     else if tagName = ''LI'' then
       (case parent of
          None \<Rightarrow> Inl TypeError
        | Some (parentTag, pos) \<Rightarrow>
            let index = (if parentTag = ''OL'' then numToString (pos + 1) @ ''. '' else ''- '')
            in Inr (index @ content @ ''\<newline>''))
     else if tagName = ''HR'' then Inr ''\<newline>---\<newline>\<newline>''
     else if tagName = ''A'' then
       Inr (''['' @ content @ '']('' @ toStr (getAttribute attrs ''href'') @ '')'')
     else if tagName = ''IMG'' then
       (let alt = (case getAttribute attrs ''alt'' of None \<Rightarrow> [] | Some a \<Rightarrow> a);
            src = getAttribute attrs ''src'';
            width = getAttribute attrs ''width''
        in if truthy width then Inr (imgRaw (toStr src) alt (toStr width))
           else Inr (imgMarkdown alt (toStr src)))
     else Inr content)"

text \<open>
  \<open>parseToMd\<close> itself, with the \<open>forEach\<close> over \<open>node.childNodes\<close> as
  \<open>parseChildren\<close>: it carries the parent's tag, the number of element children
  already visited and the content accumulated so far, and an exception thrown by a
  child ends it.
\<close>

fun parseToMd :: "(string \<times> nat) option \<Rightarrow> node \<Rightarrow> js_error + string"
  and parseChildren :: "string \<Rightarrow> nat \<Rightarrow> string \<Rightarrow> node list \<Rightarrow> js_error + string" where
  "parseToMd parent (Text textContent) = Inr (escapeHtml textContent)"
| "parseToMd parent (Element tagName attrs childNodes) =
     (case parseChildren tagName 0 [] childNodes of
        Inl e \<Rightarrow> Inl e
      | Inr content \<Rightarrow> render parent tagName attrs content)"
| "parseChildren tagName pos content [] = Inr content"
| "parseChildren tagName pos content (child # rest) =
     (case parseToMd (Some (tagName, pos)) child of
        Inl e \<Rightarrow> Inl e
      | Inr s \<Rightarrow>
          parseChildren tagName (if isElement child then Suc pos else pos) (content @ s) rest)"

section \<open>Properties of escapeHtml\<close>

lemma replaceAll_Nil: "replaceAll c r [] = []"
  by (simp add: replaceAll_def)

lemma replaceAll_Cons:
  "replaceAll c r (x # xs) = (if x = c then r else [x]) @ replaceAll c r xs"
  by (simp add: replaceAll_def)

lemma replaceAll_append: "replaceAll c r (xs @ ys) = replaceAll c r xs @ replaceAll c r ys"
  by (simp add: replaceAll_def)

lemma escapeHtml_chain:
  "replaceAll (CHR 0x27) ''&#039;''
     (replaceAll (CHR 0x22) ''&quot;''
        (replaceAll CHR ''>'' ''&gt;''
           (replaceAll CHR ''<'' ''&lt;''
              (replaceAll CHR ''&'' ''&amp;'' t)))) = concat (map escapeChar t)"
proof (induction t)
  case Nil
  show ?case by (simp add: replaceAll_Nil)
next
  case (Cons x xs)
  show ?case
    by (simp add: replaceAll_Cons replaceAll_append replaceAll_Nil escapeChar_def Cons.IH)
qed

lemma escapeHtml_concat: "escapeHtml t = concat (map escapeChar t)"
  by (cases "t = []") (simp_all add: escapeHtml_def escapeHtml_chain)

lemma escapeChar_length: "1 \<le> length (escapeChar c)"
  by (simp add: escapeChar_def)

lemma escapeChar_longer: "c \<in> escaped_chars \<Longrightarrow> 1 < length (escapeChar c)"
  by (auto simp add: escapeChar_def escaped_chars_def)

lemma escapeChar_amp: "c \<in> escaped_chars \<Longrightarrow> CHR ''&'' \<in> set (escapeChar c)"
  by (auto simp add: escapeChar_def escaped_chars_def)

lemma escapeChar_no_markup: "set (escapeChar c) \<inter> markup_chars = {}"
  by (simp add: escapeChar_def markup_chars_def)

lemma escapeHtml_length: "length t \<le> length (escapeHtml t)"
  unfolding escapeHtml_concat
proof (induction t)
  case Nil
  show ?case by simp
next
  case (Cons c cs)
  have "1 \<le> length (escapeChar c)" by (rule escapeChar_length)
  with Cons.IH show ?case by simp
qed

lemma escapeHtml_grows:
  "set t \<inter> escaped_chars \<noteq> {} \<Longrightarrow> length t < length (escapeHtml t)"
proof (induction t)
  case Nil
  then show ?case by simp
next
  case (Cons c cs)
  have tail: "length cs \<le> length (escapeHtml cs)" by (rule escapeHtml_length)
  have split: "escapeHtml (c # cs) = escapeChar c @ escapeHtml cs"
    by (simp add: escapeHtml_concat)
  show ?case
  proof (cases "c \<in> escaped_chars")
    case True
    then have "1 < length (escapeChar c)" by (rule escapeChar_longer)
    with tail split show ?thesis by simp
  next
    case False
    with Cons.prems have "set cs \<inter> escaped_chars \<noteq> {}" by auto
    then have "length cs < length (escapeHtml cs)" by (rule Cons.IH)
    moreover have "1 \<le> length (escapeChar c)" by (rule escapeChar_length)
    ultimately show ?thesis using split by simp
  qed
qed

lemma escapeHtml_has_amp:
  assumes "set t \<inter> escaped_chars \<noteq> {}"
  shows "CHR ''&'' \<in> set (escapeHtml t)"
proof -
  from assms obtain c where c: "c \<in> set t" "c \<in> escaped_chars" by auto
  then have "CHR ''&'' \<in> set (escapeChar c)" by (simp add: escapeChar_amp)
  with c(1) show ?thesis by (auto simp add: escapeHtml_concat)
qed

text \<open>
  Claim C6. \<open>escapeHtml\<close> is defined on every string, the empty one included, and its
  five successive replacements amount to one pass that maps each of the characters
  \<open>&\<close>, \<open><\<close>, \<open>>\<close>, the double quote and the apostrophe to its entity and leaves every
  other character as it is: the ampersands of the entities written by the later
  replacements are not escaped again.
\<close>

theorem escapeHtml_five_entities:
  "escapeHtml [] = [] \<and> escapeHtml t = concat (map escapeChar t)"
  by (simp add: escapeHtml_concat)

text \<open>
  Claim C8. \<open>escapeHtml\<close> is not idempotent: on every text that holds one of the five
  escaped characters, and so on the text \<open>&\<close>, a second application changes the
  result of the first.
\<close>

theorem escapeHtml_not_idempotent:
  "(set t \<inter> escaped_chars \<noteq> {} \<longrightarrow> escapeHtml (escapeHtml t) \<noteq> escapeHtml t)
   \<and> escapeHtml (escapeHtml ''&'') \<noteq> escapeHtml ''&''"
proof (intro conjI impI)
  assume "set t \<inter> escaped_chars \<noteq> {}"
  then have "CHR ''&'' \<in> set (escapeHtml t)" by (rule escapeHtml_has_amp)
  then have "set (escapeHtml t) \<inter> escaped_chars \<noteq> {}"
    by (auto simp add: escaped_chars_def)
  then have "length (escapeHtml t) < length (escapeHtml (escapeHtml t))"
    by (rule escapeHtml_grows)
  then show "escapeHtml (escapeHtml t) \<noteq> escapeHtml t" by auto
next
  show "escapeHtml (escapeHtml ''&'') \<noteq> escapeHtml ''&''"
    by (simp add: escapeHtml_concat escapeChar_def)
qed

theorem escapeHtml_not_idempotent_witness:
  "set ''a<b'' \<inter> escaped_chars \<noteq> {} \<and> escapeHtml (escapeHtml ''a<b'') \<noteq> escapeHtml ''a<b''"
  using escapeHtml_not_idempotent [of "''a<b''"] by (simp add: escaped_chars_def)

text \<open>
  Claim C9. The output of \<open>escapeHtml\<close> holds none of the characters \<open><\<close>, \<open>>\<close>, double
  quote and apostrophe, and a text node is serialized to exactly that output, so it
  adds none of them to the Markdown.
\<close>

theorem escapeHtml_no_markup_chars:
  "set (escapeHtml t) \<inter> markup_chars = {}
   \<and> (\<exists>s. parseToMd parent (Text t) = Inr s \<and> set s \<inter> markup_chars = {})"
proof -
  have "set (escapeHtml t) \<inter> markup_chars = {}"
    using escapeChar_no_markup by (auto simp add: escapeHtml_concat)
  then show ?thesis by simp
qed

section \<open>Properties of parseToMd\<close>

lemma render_Inr:
  "parent \<noteq> None \<or> tagName \<noteq> ''LI'' \<Longrightarrow> \<exists>s. render parent tagName attrs content = Inr s"
  by (auto simp add: render_def Let_def split: option.splits)

lemma render_LI_None: "render None ''LI'' attrs content = Inl TypeError"
  by (simp add: render_def)

lemma parse_nested_total:
  "(parent \<noteq> None \<or> \<not> isListItem node \<longrightarrow> (\<exists>s. parseToMd parent node = Inr s))"
  "\<exists>s. parseChildren tagName pos content kids = Inr s"
proof (induction parent node and tagName pos content kids rule: parseToMd_parseChildren.induct)
  case (1 parent textContent)
  show ?case by simp
next
  case (2 parent tagName attrs childNodes)
  from "2.IH" obtain content where c: "parseChildren tagName 0 [] childNodes = Inr content"
    by blast
  show ?case
  proof
    assume "parent \<noteq> None \<or> \<not> isListItem (Element tagName attrs childNodes)"
    then have "parent \<noteq> None \<or> tagName \<noteq> ''LI''" by simp
    then obtain s where "render parent tagName attrs content = Inr s"
      using render_Inr by blast
    with c show "\<exists>s. parseToMd parent (Element tagName attrs childNodes) = Inr s" by simp
  qed
next
  case (3 tagName pos content)
  show ?case by simp
next
  case (4 tagName pos content child rest)
  from "4.IH"(1) obtain s where s: "parseToMd (Some (tagName, pos)) child = Inr s" by blast
  from "4.IH"(2) [OF s] s show ?case by simp
qed

lemma parseChildren_total: "\<exists>s. parseChildren tagName pos content kids = Inr s"
  by (rule parse_nested_total(2))

text \<open>
  Claim C10. A list item whose \<open>parentElement\<close> is \<open>null\<close> makes \<open>parseToMd\<close> throw a
  TypeError instead of returning a string. Inside a tree every node below the root has
  its parent element, so the only list item that can lack one is the root itself:
  \<open>parseToMd\<close> returns a string exactly when the root has a parent element or is not a
  list item, and then the throwing branch is never taken.
\<close>

theorem parseToMd_LI_needs_parent:
  "parseToMd None (Element ''LI'' attrs kids) = Inl TypeError
   \<and> (parent \<noteq> None \<or> \<not> isListItem node \<longrightarrow> (\<exists>s. parseToMd parent node = Inr s))
   \<and> ((\<exists>s. parseToMd parent node = Inr s) \<longrightarrow> parent \<noteq> None \<or> \<not> isListItem node)"
proof (intro conjI)
  obtain content where c: "parseChildren ''LI'' 0 [] kids = Inr content"
    using parseChildren_total by blast
  then show li: "parseToMd None (Element ''LI'' attrs kids) = Inl TypeError"
    by (simp add: render_LI_None)
  show "parent \<noteq> None \<or> \<not> isListItem node \<longrightarrow> (\<exists>s. parseToMd parent node = Inr s)"
    by (rule parse_nested_total(1))
  show "(\<exists>s. parseToMd parent node = Inr s) \<longrightarrow> parent \<noteq> None \<or> \<not> isListItem node"
  proof (intro impI, rule ccontr)
    assume ok: "\<exists>s. parseToMd parent node = Inr s"
    assume "\<not> (parent \<noteq> None \<or> \<not> isListItem node)"
    then have p: "parent = None" and l: "isListItem node" by blast+
    from l obtain a ks where "node = Element ''LI'' a ks" by (cases node) simp_all
    moreover obtain content where "parseChildren ''LI'' 0 [] ks = Inr content"
      using parseChildren_total by blast
    ultimately have "parseToMd parent node = Inl TypeError"
      using p by (simp add: render_LI_None)
    with ok show False by simp
  qed
qed

theorem parseToMd_LI_needs_parent_witness:
  "\<not> isListItem (Element ''UL'' [] [Element ''LI'' [] [Text ''a'']])
   \<and> (\<exists>s. parseToMd None (Element ''UL'' [] [Element ''LI'' [] [Text ''a'']]) = Inr s)
   \<and> parseToMd None (Element ''LI'' [] [Text ''a'']) = Inl TypeError"
  using parseToMd_LI_needs_parent [of "[]" "[Text ''a'']" None "Element ''UL'' [] [Element ''LI'' [] [Text ''a'']]"]
  by simp

lemma render_block:
  "tagName = ''P'' \<or> tagName = ''DIV'' \<Longrightarrow>
   render parent tagName attrs content =
     Inr (if trim content = [] then [] else content @ ''\<newline>\<newline>'')"
  by (auto simp add: render_def)

lemma render_LI_Some:
  "render (Some (parentTag, pos)) ''LI'' attrs content =
     Inr ((if parentTag = ''OL'' then numToString (Suc pos) @ ''. '' else ''- '')
          @ content @ ''\<newline>'')"
  by (simp add: render_def)

lemma render_OL: "render parent ''OL'' attrs content = Inr (content @ ''\<newline>'')"
  by (simp add: render_def)

lemma render_IMG:
  "render parent ''IMG'' attrs content =
     Inr (case getAttribute attrs ''width'' of
            None \<Rightarrow>
              imgMarkdown (case getAttribute attrs ''alt'' of None \<Rightarrow> [] | Some a \<Rightarrow> a)
                (toStr (getAttribute attrs ''src''))
          | Some w \<Rightarrow>
              if w = [] then
                imgMarkdown (case getAttribute attrs ''alt'' of None \<Rightarrow> [] | Some a \<Rightarrow> a)
                  (toStr (getAttribute attrs ''src''))
              else
                imgRaw (toStr (getAttribute attrs ''src''))
                  (case getAttribute attrs ''alt'' of None \<Rightarrow> [] | Some a \<Rightarrow> a) w)"
  by (simp add: render_def Let_def split: option.splits)

lemma parseChildren_acc:
  "parseChildren tagName pos [] kids = Inr s \<Longrightarrow>
   parseChildren tagName pos content kids = Inr (content @ s)"
proof (induction kids arbitrary: pos content s)
  case Nil
  then show ?case by simp
next
  case (Cons child rest)
  let ?pos = "if isElement child then Suc pos else pos"
  obtain s1 where s1: "parseToMd (Some (tagName, pos)) child = Inr s1"
    using parse_nested_total(1) by blast
  obtain r where r: "parseChildren tagName ?pos [] rest = Inr r"
    using parseChildren_total by blast
  have "parseChildren tagName ?pos s1 rest = Inr (s1 @ r)"
    using r by (rule Cons.IH)
  with Cons.prems s1 have s: "s = s1 @ r" by simp
  have "parseChildren tagName ?pos (content @ s1) rest = Inr ((content @ s1) @ r)"
    using r by (rule Cons.IH)
  with s1 s show ?case by simp
qed

lemma parseChildren_append:
  "parseChildren tagName pos content xs = Inr s \<Longrightarrow>
   parseChildren tagName pos content (xs @ ys) =
     parseChildren tagName (pos + length (filter isElement xs)) s ys"
proof (induction xs arbitrary: pos content)
  case Nil
  then show ?case by simp
next
  case (Cons child rest)
  obtain s1 where s1: "parseToMd (Some (tagName, pos)) child = Inr s1"
    using parse_nested_total(1) by blast
  with Cons.prems have
    "parseChildren tagName (if isElement child then Suc pos else pos) (content @ s1) rest = Inr s"
    by simp
  from Cons.IH [OF this] s1 show ?case by simp
qed

lemma parseChildren_item:
  assumes pre: "parseChildren tagName 0 [] pre = Inr before"
    and item: "parseToMd (Some (tagName, length (filter isElement pre))) child = Inr out"
    and post: "parseChildren tagName
                 (if isElement child then Suc (length (filter isElement pre))
                  else length (filter isElement pre)) [] post = Inr after"
  shows "parseChildren tagName 0 [] (pre @ child # post) = Inr (before @ out @ after)"
proof -
  have "parseChildren tagName 0 [] (pre @ child # post) =
        parseChildren tagName (length (filter isElement pre)) before (child # post)"
    using parseChildren_append [OF pre] by simp
  also have "\<dots> = parseChildren tagName
                 (if isElement child then Suc (length (filter isElement pre))
                  else length (filter isElement pre)) (before @ out) post"
    using item by simp
  also have "\<dots> = Inr ((before @ out) @ after)"
    using post by (rule parseChildren_acc)
  finally show ?thesis by simp
qed

text \<open>
  Claim C7. For a \<open>P\<close> or \<open>DIV\<close> element, \<open>parseToMd\<close> returns the empty string when
  the concatenated output of its children is empty after \<open>trim\<close>, and that output
  followed by two newlines otherwise; a paragraph holding the text \<open><script>\<close> gives
  the escaped text followed by two newlines.
\<close>

theorem parseToMd_paragraph:
  "(tagName = ''P'' \<or> tagName = ''DIV'' \<longrightarrow>
      (\<exists>content. parseChildren tagName 0 [] kids = Inr content
         \<and> parseToMd parent (Element tagName attrs kids) =
             Inr (if trim content = [] then [] else content @ ''\<newline>\<newline>'')))
   \<and> parseToMd parent (Element ''P'' [] [Text ''<script>'']) = Inr ''&lt;script&gt;\<newline>\<newline>''"
proof (intro conjI impI)
  assume tag: "tagName = ''P'' \<or> tagName = ''DIV''"
  obtain content where c: "parseChildren tagName 0 [] kids = Inr content"
    using parseChildren_total by blast
  with render_block [OF tag] show
    "\<exists>content. parseChildren tagName 0 [] kids = Inr content
       \<and> parseToMd parent (Element tagName attrs kids) =
           Inr (if trim content = [] then [] else content @ ''\<newline>\<newline>'')"
    by simp
next
  have "trim ''&lt;script&gt;'' \<noteq> []"
    by (simp add: trim_def isWhiteSpace_def)
  then show "parseToMd parent (Element ''P'' [] [Text ''<script>'']) = Inr ''&lt;script&gt;\<newline>\<newline>''"
    by (simp add: render_block escapeHtml_concat escapeChar_def)
qed

theorem parseToMd_paragraph_witness:
  "parseToMd None (Element ''DIV'' [] [Text '' '', Element ''BR'' [] []]) = Inr []"
proof -
  let ?kids = "[Text '' '', Element ''BR'' [] []]"
  have c: "parseChildren ''DIV'' 0 [] ?kids = Inr '' \<newline>''"
    by (simp add: escapeHtml_concat escapeChar_def render_def)
  have t: "trim '' \<newline>'' = []"
    by code_simp
  from parseToMd_paragraph [of "''DIV''" ?kids None "[]"]
  obtain content where "parseChildren ''DIV'' 0 [] ?kids = Inr content"
    and "parseToMd None (Element ''DIV'' [] ?kids) =
           Inr (if trim content = [] then [] else content @ ''\<newline>\<newline>'')"
    by blast
  with c t show ?thesis by simp
qed

text \<open>
  Claim C3, as stated, fails on an image whose \<open>width\<close> attribute is present with an
  empty value: \<open>if (width)\<close> is false for the empty string, and the Markdown form is
  written.
\<close>

theorem parseToMd_image_empty_width_counterexample:
  "getAttribute [(''src'', ''https://x/y.png''), (''alt'', ''logo''), (''width'', '''')] ''width''
     = Some []
   \<and> parseToMd None
       (Element ''IMG'' [(''src'', ''https://x/y.png''), (''alt'', ''logo''), (''width'', '''')] [])
     = Inr ''\<newline>![logo](https://x/y.png)\<newline>''"
  by (simp add: getAttribute_def render_IMG imgMarkdown_def)

text \<open>
  Claim C3, amended. An \<open>IMG\<close> element is written in the raw \<open><img ...>\<close> form exactly
  when its \<open>width\<close> attribute is present with a non-empty value, and in the Markdown
  form \<open>![alt](src)\<close> when the attribute is absent or empty; the two forms never
  coincide, and no other attribute takes part in the choice. A missing \<open>alt\<close> is
  written as the empty string and a missing \<open>src\<close> as the word null. The image of the
  specification's example, with width 200px, is written in the raw form.
\<close>

theorem parseToMd_image:
  "parseToMd parent (Element ''IMG'' attrs kids) =
     Inr (case getAttribute attrs ''width'' of
            None \<Rightarrow>
              imgMarkdown (case getAttribute attrs ''alt'' of None \<Rightarrow> [] | Some a \<Rightarrow> a)
                (toStr (getAttribute attrs ''src''))
          | Some w \<Rightarrow>
              if w = [] then
                imgMarkdown (case getAttribute attrs ''alt'' of None \<Rightarrow> [] | Some a \<Rightarrow> a)
                  (toStr (getAttribute attrs ''src''))
              else
                imgRaw (toStr (getAttribute attrs ''src''))
                  (case getAttribute attrs ''alt'' of None \<Rightarrow> [] | Some a \<Rightarrow> a) w)
   \<and> imgRaw src alt width \<noteq> imgMarkdown alt' src'
   \<and> parseToMd parent
       (Element ''IMG'' [(''src'', ''https://x/y.png''), (''alt'', ''logo''), (''width'', ''200px'')] [])
     = Inr (''\<newline><img src='' @ [CHR 0x22] @ ''https://x/y.png'' @ [CHR 0x22] @ '' alt=''
            @ [CHR 0x22] @ ''logo'' @ [CHR 0x22] @ '' width='' @ [CHR 0x22] @ ''200px''
            @ [CHR 0x22] @ ''>\<newline>'')"
proof (intro conjI)
  obtain content where c: "parseChildren ''IMG'' 0 [] kids = Inr content"
    using parseChildren_total by blast
  then show "parseToMd parent (Element ''IMG'' attrs kids) =
     Inr (case getAttribute attrs ''width'' of
            None \<Rightarrow>
              imgMarkdown (case getAttribute attrs ''alt'' of None \<Rightarrow> [] | Some a \<Rightarrow> a)
                (toStr (getAttribute attrs ''src''))
          | Some w \<Rightarrow>
              if w = [] then
                imgMarkdown (case getAttribute attrs ''alt'' of None \<Rightarrow> [] | Some a \<Rightarrow> a)
                  (toStr (getAttribute attrs ''src''))
              else
                imgRaw (toStr (getAttribute attrs ''src''))
                  (case getAttribute attrs ''alt'' of None \<Rightarrow> [] | Some a \<Rightarrow> a) w)"
    by (simp add: render_IMG)
  show "imgRaw src alt width \<noteq> imgMarkdown alt' src'"
    by (simp add: imgRaw_def imgMarkdown_def)
  show "parseToMd parent
       (Element ''IMG'' [(''src'', ''https://x/y.png''), (''alt'', ''logo''), (''width'', ''200px'')] [])
     = Inr (''\<newline><img src='' @ [CHR 0x22] @ ''https://x/y.png'' @ [CHR 0x22] @ '' alt=''
            @ [CHR 0x22] @ ''logo'' @ [CHR 0x22] @ '' width='' @ [CHR 0x22] @ ''200px''
            @ [CHR 0x22] @ ''>\<newline>'')"
    by (simp add: render_IMG getAttribute_def imgRaw_def)
qed

text \<open>
  Claim C4, as stated, fails on an ordered list whose first child is a text node: the
  list item is the second of its parent's children, yet it is numbered 1, because
  \<open>parent.children\<close> holds the element children only.
\<close>

theorem parseToMd_list_item_counterexample:
  "parseToMd None (Element ''OL'' [] [Text '' '', Element ''LI'' [] [Text ''a'']])
     = Inr '' 1. a\<newline>\<newline>''
   \<and> parseToMd None (Element ''OL'' [] [Text '' '', Element ''LI'' [] [Text ''a'']])
     \<noteq> Inr ('' '' @ numToString (Suc (length [Text '' ''])) @ ''. a\<newline>\<newline>'')"
  by (simp add: render_OL render_LI_Some escapeHtml_concat escapeChar_def digitChar_def)

text \<open>
  Claim C4, amended. The ordered list of the two items a and b is serialized to
  \<open>1. a\<close>, \<open>2. b\<close>, each followed by a newline, and one more newline. A list item with
  a parent element is written as its prefix, its content and a newline, where the
  prefix is the ordinal, a dot and a space under an \<open>OL\<close> parent and \<open>- \<close> under any
  other parent. The ordinal is one more than the number of element children of the
  parent that come before the item (text nodes are not counted): the loop over the
  child nodes \<open>pre\<close>, the item, \<open>post\<close> of a parent writes the item with that ordinal
  between the output of \<open>pre\<close> and the output of \<open>post\<close>.
\<close>

theorem parseToMd_list_item:
  "parseToMd parent (Element ''OL'' [] [Element ''LI'' [] [Text ''a''], Element ''LI'' [] [Text ''b'']])
     = Inr ''1. a\<newline>2. b\<newline>\<newline>''
   \<and> (\<exists>content. parseChildren ''LI'' 0 [] kids = Inr content
        \<and> parseToMd (Some (parentTag, pos)) (Element ''LI'' attrs kids) =
            Inr ((if parentTag = ''OL'' then numToString (Suc pos) @ ''. '' else ''- '')
                 @ content @ ''\<newline>''))
   \<and> (\<exists>before content after.
          parseChildren tagName 0 [] pre = Inr before
        \<and> parseChildren ''LI'' 0 [] kids = Inr content
        \<and> parseChildren tagName (Suc (length (filter isElement pre))) [] post = Inr after
        \<and> parseChildren tagName 0 [] (pre @ Element ''LI'' attrs kids # post)
            = Inr (before
                   @ (if tagName = ''OL''
                      then numToString (Suc (length (filter isElement pre))) @ ''. ''
                      else ''- '')
                   @ content @ ''\<newline>'' @ after))"
proof (intro conjI)
  show "parseToMd parent (Element ''OL'' [] [Element ''LI'' [] [Text ''a''], Element ''LI'' [] [Text ''b'']])
     = Inr ''1. a\<newline>2. b\<newline>\<newline>''"
    by (simp add: render_OL render_LI_Some escapeHtml_concat escapeChar_def digitChar_def)
next
  obtain content where c: "parseChildren ''LI'' 0 [] kids = Inr content"
    using parseChildren_total by blast
  then show "\<exists>content. parseChildren ''LI'' 0 [] kids = Inr content
        \<and> parseToMd (Some (parentTag, pos)) (Element ''LI'' attrs kids) =
            Inr ((if parentTag = ''OL'' then numToString (Suc pos) @ ''. '' else ''- '')
                 @ content @ ''\<newline>'')"
    by (simp add: render_LI_Some)
next
  let ?n = "length (filter isElement pre)"
  let ?li = "Element ''LI'' attrs kids"
  let ?prefix = "if tagName = ''OL'' then numToString (Suc ?n) @ ''. '' else ''- ''"
  obtain before where b: "parseChildren tagName 0 [] pre = Inr before"
    using parseChildren_total by blast
  obtain content where c: "parseChildren ''LI'' 0 [] kids = Inr content"
    using parseChildren_total by blast
  obtain after where a: "parseChildren tagName (Suc ?n) [] post = Inr after"
    using parseChildren_total by blast
  have i: "parseToMd (Some (tagName, ?n)) ?li = Inr (?prefix @ content @ ''\<newline>'')"
    using c by (simp add: render_LI_Some)
  have "parseChildren tagName 0 [] (pre @ ?li # post)
          = Inr (before @ (?prefix @ content @ ''\<newline>'') @ after)"
    using b i a by (simp only: parseChildren_item isElement.simps if_True)
  then have "parseChildren tagName 0 [] (pre @ ?li # post)
          = Inr (before @ ?prefix @ content @ ''\<newline>'' @ after)"
    by simp
  with b c a show "\<exists>before content after.
          parseChildren tagName 0 [] pre = Inr before
        \<and> parseChildren ''LI'' 0 [] kids = Inr content
        \<and> parseChildren tagName (Suc (length (filter isElement pre))) [] post = Inr after
        \<and> parseChildren tagName 0 [] (pre @ Element ''LI'' attrs kids # post)
            = Inr (before
                   @ (if tagName = ''OL''
                      then numToString (Suc (length (filter isElement pre))) @ ''. ''
                      else ''- '')
                   @ content @ ''\<newline>'' @ after)"
    by blast
qed

section \<open>Properties of enforceHttps\<close>

lemma toLowerCase_https: "toLowerCase ''https://'' = ''https://''"
  by code_simp

lemma startsWith_prepended: "startsWith (toLowerCase (''https://'' @ url)) ''https://''"
proof -
  have "toLowerCase (''https://'' @ url) = ''https://'' @ toLowerCase url"
    using toLowerCase_https by (simp add: toLowerCase_def)
  then show ?thesis by (simp add: startsWith_def)
qed

text \<open>
  Claim C5. \<open>enforceHttps\<close> either returns \<open>null\<close> or a string that starts with
  \<open>https://\<close> when lower-cased. A non-empty input whose trimmed form has that prefix is
  returned trimmed and otherwise unchanged; a non-empty input whose trimmed form has
  neither the \<open>https://\<close> nor the \<open>http://\<close> prefix and does not match the scheme
  pattern is returned trimmed with \<open>https://\<close> put in front, as \<open>example.com\<close> is.
\<close>

theorem enforceHttps_https_only:
  "(snd (enforceHttps inputUrl msgs) = None
      \<or> (\<exists>url. snd (enforceHttps inputUrl msgs) = Some url
            \<and> startsWith (toLowerCase url) ''https://''))
   \<and> (inputUrl \<noteq> [] \<and> startsWith (toLowerCase (trim inputUrl)) ''https://'' \<longrightarrow>
        enforceHttps inputUrl msgs = ([], Some (trim inputUrl)))
   \<and> (inputUrl \<noteq> [] \<and> \<not> startsWith (toLowerCase (trim inputUrl)) ''https://''
        \<and> \<not> startsWith (toLowerCase (trim inputUrl)) ''http://''
        \<and> \<not> schemePattern (trim inputUrl) \<longrightarrow>
        enforceHttps inputUrl msgs = ([], Some (''https://'' @ trim inputUrl)))
   \<and> enforceHttps ''example.com'' msgs = ([], Some ''https://example.com'')"
proof (intro conjI)
  show "snd (enforceHttps inputUrl msgs) = None
      \<or> (\<exists>url. snd (enforceHttps inputUrl msgs) = Some url
            \<and> startsWith (toLowerCase url) ''https://'')"
    using startsWith_prepended by (simp add: enforceHttps_def Let_def)
  show "inputUrl \<noteq> [] \<and> startsWith (toLowerCase (trim inputUrl)) ''https://'' \<longrightarrow>
        enforceHttps inputUrl msgs = ([], Some (trim inputUrl))"
    by (simp add: enforceHttps_def Let_def)
  show "inputUrl \<noteq> [] \<and> \<not> startsWith (toLowerCase (trim inputUrl)) ''https://''
        \<and> \<not> startsWith (toLowerCase (trim inputUrl)) ''http://''
        \<and> \<not> schemePattern (trim inputUrl) \<longrightarrow>
        enforceHttps inputUrl msgs = ([], Some (''https://'' @ trim inputUrl))"
    by (simp add: enforceHttps_def Let_def)
  show "enforceHttps ''example.com'' msgs = ([], Some ''https://example.com'')"
    by code_simp
qed

theorem enforceHttps_https_only_witness:
  "enforceHttps '' HTTPS://a.b '' \<lparr>httpsRequired = ''use https'', invalidProtocol = ''not allowed''\<rparr>
     = ([], Some ''HTTPS://a.b'')
   \<and> enforceHttps ''a.b/c'' \<lparr>httpsRequired = ''use https'', invalidProtocol = ''not allowed''\<rparr>
     = ([], Some ''https://a.b/c'')"
proof -
  let ?m = "\<lparr>httpsRequired = ''use https'', invalidProtocol = ''not allowed''\<rparr>"
  have t1: "trim '' HTTPS://a.b '' = ''HTTPS://a.b''" by code_simp
  have h1: "'' HTTPS://a.b '' \<noteq> [] \<and> startsWith (toLowerCase (trim '' HTTPS://a.b '')) ''https://''"
    by code_simp
  have t2: "trim ''a.b/c'' = ''a.b/c''" by code_simp
  have h2: "''a.b/c'' \<noteq> [] \<and> \<not> startsWith (toLowerCase (trim ''a.b/c'')) ''https://''
        \<and> \<not> startsWith (toLowerCase (trim ''a.b/c'')) ''http://''
        \<and> \<not> schemePattern (trim ''a.b/c'')"
    by code_simp
  from enforceHttps_https_only [of "'' HTTPS://a.b ''" ?m] h1
  have "enforceHttps '' HTTPS://a.b '' ?m = ([], Some (trim '' HTTPS://a.b ''))" by blast
  moreover from enforceHttps_https_only [of "''a.b/c''" ?m] h2
  have "enforceHttps ''a.b/c'' ?m = ([], Some (''https://'' @ trim ''a.b/c''))" by blast
  ultimately show ?thesis by (simp add: t1 t2)
qed

text \<open>
  Claim C1. The input \<open>javascript:alert(1)\<close> has no \<open>://\<close> after its scheme, so the
  scheme pattern does not match it: no message is shown and the input is returned with
  \<open>https://\<close> put in front.
\<close>

theorem enforceHttps_javascript_accepted:
  "enforceHttps ''javascript:alert(1)'' msgs = ([], Some ''https://javascript:alert(1)'')"
  by code_simp

text \<open>
  Claim C2. The emptiness test comes before the \<open>trim\<close>: the empty input is answered
  with \<open>null\<close> and no message, while an input of one space passes the test, is
  trimmed to the empty string and comes back as \<open>https://\<close>.
\<close>

theorem enforceHttps_blank_accepted:
  "enforceHttps '' '' msgs = ([], Some ''https://'') \<and> enforceHttps [] msgs = ([], None)"
  by code_simp

end
